theory Spec2Isabelle
  imports Main "HOL-Library.Word"
begin

section \<open>Protocol values\<close>

text \<open>
  The LSP client of the package \<open>lsp\<close> (client.go) keeps its state in the struct
  \<open>Client\<close> and talks to a child process over its standard input. The embedding
  below follows the Go source function by function. Go's \<open>int32\<close> is a 32-bit word
  (\<open>+\<close> wraps, \<open>sint\<close> reads it as two's complement), Go maps are HOL maps,
  the \<open>error\<close> results are values of the datatype \<open>error\<close>, and every mutation of
  the client is explicit state passing. Calls of the loggers change nothing the
  client reads back and are left out.
\<close>

type_synonym int32 = "32 word"
type_synonym DocumentUri = string

text \<open>Go's \<open>any\<close>, as far as JSON configuration values and the literal of the default
  profile need it (\<open>map[string]bool\<close> is the type of the literal under \<open>codelenses\<close>).\<close>

datatype any =
    AnyNull
  | AnyBool bool
  | AnyNumber int
  | AnyString string
  | AnyList "any list"
  | AnyObject "(string \<times> any) list"
  | AnyBoolMap "string \<rightharpoonup> bool"

record WorkspaceFolder =
  wf_URI :: string
  wf_Name :: string

record ClientInfo =
  ci_Name :: string
  ci_Version :: string

text \<open>The fields of \<open>protocol.ClientCapabilities\<close> that the literal in
  \<open>InitializeLSPClient\<close> sets; every other field has Go's zero value.\<close>

record ClientCapabilities =
  Workspace_Configuration :: bool
  DidChangeConfiguration_DynamicRegistration :: bool
  DidChangeWatchedFiles_DynamicRegistration :: bool
  DidChangeWatchedFiles_RelativePatternSupport :: bool
  Synchronization_DynamicRegistration :: bool
  Synchronization_DidSave :: bool
  CodeLens_DynamicRegistration :: bool
  PublishDiagnostics_VersionSupport :: bool

record InitializeParams =
  WorkspaceFolders :: "WorkspaceFolder list"
  ProcessID :: int32
  ClientInfo :: ClientInfo
  RootPath :: string
  RootURI :: DocumentUri
  Capabilities :: ClientCapabilities
  InitializationOptions :: "string \<rightharpoonup> any"

text \<open>The parameter structs that client.go passes to \<open>Call\<close> and \<open>Notify\<close>.\<close>

datatype params =
    PInitialize InitializeParams
  | PEmptyStruct
  | PInitialized
  | PDidOpen DocumentUri string int32 string
  | PDidChange DocumentUri int32 string
  | PDidClose DocumentUri

text \<open>A frame written to the child's standard input: a request (with its id) or a
  notification.\<close>

datatype Message =
    Request int32 string params
  | Notification string params

datatype error =
    ReadFileError string
  | UnopenedFile string
  | WriteError
  | ResponseError string
  | CallAbandoned
  | InitializeFailed error
  | InitializedNotificationFailed error
  | InitializationFailed error
  | ServerSpecific string

text \<open>What the server does with a request: it answers with a result, answers with an
  error object, or never answers before the caller gives up (cancelled context, closed
  connection).\<close>

datatype reply =
    Result any
  | ErrorResponse string
  | NoResponse

section \<open>The environment\<close>

text \<open>
  Everything client.go reads from outside itself: the file system (\<open>os.ReadFile\<close>,
  \<open>None\<close> when the read fails), \<open>DetectLanguageID\<close>, \<open>os.Getpid\<close>,
  \<open>strings.ToLower\<close>, whether the n-th write of a frame to the child's standard input
  fails, and the server's reaction to a request.
\<close>

record env =
  ReadFile :: "string \<Rightarrow> string option"
  DetectLanguageID :: "string \<Rightarrow> string"
  Getpid :: int
  ToLower :: "string \<Rightarrow> string"
  write_fails :: "nat \<Rightarrow> bool"
  server_reply :: "Message \<Rightarrow> reply"

section \<open>The client\<close>

record OpenFileInfo =
  Version :: int32
  URI :: DocumentUri

record Diagnostic =
  diag_Severity :: nat
  diag_Message :: string

datatype ServerRequestHandler =
  HandleApplyEdit | HandleWorkspaceConfiguration | HandleRegisterCapability

datatype NotificationHandler =
  HandleServerMessage | HandleDiagnosticsOfClient

text \<open>
  The struct \<open>Client\<close>. \<open>stdin\<close> is the sequence of frames written to the child so
  far, oldest first, and \<open>writes\<close> counts the writes attempted on it. \<open>handlers\<close>
  holds the pending calls; the Go map is keyed by the decimal rendering of the request
  id, which is injective, the model keys it by the id. The locks guard each map against
  concurrent access and have no sequential effect.
\<close>

record Client =
  CmdPath :: string
  stdin :: "Message list"
  writes :: nat
  nextID :: int32
  handlers :: "int32 \<rightharpoonup> unit"
  serverRequestHandlers :: "string \<rightharpoonup> ServerRequestHandler"
  notificationHandlers :: "string \<rightharpoonup> NotificationHandler"
  diagnostics :: "DocumentUri \<rightharpoonup> Diagnostic list"
  openFiles :: "string \<rightharpoonup> OpenFileInfo"

text \<open>\<open>NewClient\<close> on its success path: empty maps, the counter at Go's zero value.\<close>

definition NewClient :: "string \<Rightarrow> Client" where
  "NewClient command =
     \<lparr>CmdPath = command, stdin = [], writes = 0, nextID = 0, handlers = Map.empty,
      serverRequestHandlers = Map.empty, notificationHandlers = Map.empty,
      diagnostics = Map.empty, openFiles = Map.empty\<rparr>"

subsection \<open>Transport\<close>

text \<open>
  Modelled from the spec: \<open>Notify\<close> is defined in the transport file of the package,
  which is not among the sources. Section 4.2: "fire-and-forget send, no id, no waiter
  -- returns once the write completes (or fails on transport error)".
\<close>

definition Notify :: "env \<Rightarrow> Client \<Rightarrow> string \<Rightarrow> params \<Rightarrow> error option \<times> Client" where
  "Notify e c method p =
     (let c' = c\<lparr>writes := Suc (writes c)\<rparr>
      in if write_fails e (writes c) then (Some WriteError, c')
         else (None, c'\<lparr>stdin := stdin c @ [Notification method p]\<rparr>))"

subsection \<open>Document synchronisation\<close>

definition OpenFile :: "env \<Rightarrow> Client \<Rightarrow> string \<Rightarrow> error option \<times> Client" where
  "OpenFile e c filepath =
     (let uri = ''file://'' @ filepath
      in if openFiles c uri \<noteq> None then (None, c)
         else case ReadFile e filepath of
           None \<Rightarrow> (Some (ReadFileError filepath), c)
         | Some content \<Rightarrow>
             (case Notify e c ''textDocument/didOpen''
                     (PDidOpen uri (DetectLanguageID e uri) 1 content) of
                (Some err, c') \<Rightarrow> (Some err, c')
              | (None, c') \<Rightarrow>
                  (None, c'\<lparr>openFiles := (openFiles c')(uri \<mapsto> \<lparr>Version = 1, URI = uri\<rparr>)\<rparr>)))"

text \<open>
  \<open>NotifyChange\<close> reads the file first, then looks the URI up; the entry is a pointer,
  so \<open>fileInfo.Version++\<close> changes the stored entry before the notification is sent.
\<close>

definition NotifyChange :: "env \<Rightarrow> Client \<Rightarrow> string \<Rightarrow> error option \<times> Client" where
  "NotifyChange e c filepath =
     (let uri = ''file://'' @ filepath
      in case ReadFile e filepath of
           None \<Rightarrow> (Some (ReadFileError filepath), c)
         | Some content \<Rightarrow>
             (case openFiles c uri of
                None \<Rightarrow> (Some (UnopenedFile filepath), c)
              | Some fileInfo \<Rightarrow>
                  (let fileInfo' = fileInfo\<lparr>Version := Version fileInfo + 1\<rparr>;
                       version = Version fileInfo';
                       c1 = c\<lparr>openFiles := (openFiles c)(uri \<mapsto> fileInfo')\<rparr>
                   in Notify e c1 ''textDocument/didChange'' (PDidChange uri version content))))"

text \<open>
  \<open>CloseFile\<close>. The argument of its debug log, \<open>URI.Dir()\<close>, belongs to the protocol
  package, which is not among the sources; it is taken to return.
\<close>

definition CloseFile :: "env \<Rightarrow> Client \<Rightarrow> string \<Rightarrow> error option \<times> Client" where
  "CloseFile e c filepath =
     (let uri = ''file://'' @ filepath
      in if openFiles c uri = None then (None, c)
         else case Notify e c ''textDocument/didClose'' (PDidClose uri) of
                (Some err, c') \<Rightarrow> (Some err, c')
              | (None, c') \<Rightarrow> (None, c'\<lparr>openFiles := (openFiles c')(uri := None)\<rparr>))"

definition IsFileOpen :: "Client \<Rightarrow> string \<Rightarrow> bool" where
  "IsFileOpen c filepath = (openFiles c (''file://'' @ filepath) \<noteq> None)"

text \<open>\<open>strings.TrimPrefix\<close>.\<close>

definition TrimPrefix :: "string \<Rightarrow> string \<Rightarrow> string" where
  "TrimPrefix s prefix =
     (if take (length prefix) s = prefix then drop (length prefix) s else s)"

text \<open>
  \<open>CloseAllFiles\<close>: the first loop collects one path per key of the map, the second
  closes them and only logs an error. Go leaves the order of \<open>range\<close> over a map open;
  \<open>uris\<close> is the order the runtime picks, any enumeration of the keys without
  repetition (\<open>range_order\<close>).
\<close>

definition range_order :: "'k list \<Rightarrow> ('k \<rightharpoonup> 'v) \<Rightarrow> bool" where
  "range_order ks m = (distinct ks \<and> set ks = dom m)"

fun closeEach :: "env \<Rightarrow> Client \<Rightarrow> string list \<Rightarrow> Client" where
  "closeEach e c [] = c"
| "closeEach e c (filePath # filesToClose) =
     closeEach e (snd (CloseFile e c filePath)) filesToClose"

definition CloseAllFiles :: "env \<Rightarrow> Client \<Rightarrow> string list \<Rightarrow> Client" where
  "CloseAllFiles e c uris =
     (let filesToClose = map (\<lambda>uri. TrimPrefix uri ''file://'') uris
      in closeEach e c filesToClose)"

subsection \<open>Diagnostics cache\<close>

text \<open>
  \<open>GetFileDiagnostics\<close> returns the entry of the map; indexing a Go map with a key it
  does not hold yields the zero value, the nil slice, which is the empty sequence. The
  client is returned as well, so that what the call leaves of it can be stated.
\<close>

definition GetFileDiagnostics :: "Client \<Rightarrow> DocumentUri \<Rightarrow> Diagnostic list \<times> Client" where
  "GetFileDiagnostics c uri =
     (case diagnostics c uri of None \<Rightarrow> ([], c) | Some ds \<Rightarrow> (ds, c))"

text \<open>
  Modelled from the spec: \<open>HandleDiagnostics\<close>, the handler registered for
  \<open>textDocument/publishDiagnostics\<close>, is not among the sources. Section 4.5: "on
  receipt, the entry for the message's URI is replaced wholesale with the received
  diagnostic list"; section 4.1: handler failures are logged, so parameters that do not
  decode (\<open>None\<close>) change nothing.
\<close>

definition HandleDiagnostics :: "Client \<Rightarrow> (DocumentUri \<times> Diagnostic list) option \<Rightarrow> Client" where
  "HandleDiagnostics c params =
     (case params of
        None \<Rightarrow> c
      | Some (uri, ds) \<Rightarrow> c\<lparr>diagnostics := (diagnostics c)(uri \<mapsto> ds)\<rparr>)"

subsection \<open>Request ids and calls\<close>

text \<open>
  Modelled from the spec: \<open>Call\<close> is defined in the transport file of the package,
  which is not among the sources; client.go declares the counter, \<open>nextID
  atomic.Int32\<close>, and the table of pending calls, \<open>handlers\<close>. Section 4.2: Call
  "allocates the next id, stores a PendingCall, sends the Request, then blocks until
  either (a) the read loop delivers a matching Response, (b) the caller's context is
  canceled/expires, or (c) the connection terminates. On (b)/(c) the PendingCall is
  removed and the call fails"; section 5: the counter "is a single
  atomically-incremented value"; section 7: a response with an error object is
  "surfaced to the caller of Call as a typed failure". The increment is that of a
  32-bit signed integer: it wraps.
\<close>

definition allocID :: "Client \<Rightarrow> int32 \<times> Client" where
  "allocID c = (let rid = nextID c + 1 in (rid, c\<lparr>nextID := rid\<rparr>))"

text \<open>The first half of a call: allocate the id, store the pending call, write the
  request. A failed write ends the call at once.\<close>

definition Call_send :: "env \<Rightarrow> Client \<Rightarrow> string \<Rightarrow> params \<Rightarrow> int32 \<times> error option \<times> Client" where
  "Call_send e c method p =
     (let (rid, c1) = allocID c;
          c2 = c1\<lparr>handlers := (handlers c1)(rid \<mapsto> ())\<rparr>;
          c3 = c2\<lparr>writes := Suc (writes c2)\<rparr>
      in if write_fails e (writes c2) then (rid, Some WriteError, c3)
         else (rid, None, c3\<lparr>stdin := stdin c2 @ [Request rid method p]\<rparr>))"

text \<open>The second half: the pending call is removed, whatever ended the wait.\<close>

definition Call_finish :: "Client \<Rightarrow> int32 \<Rightarrow> Client" where
  "Call_finish c rid = c\<lparr>handlers := (handlers c)(rid := None)\<rparr>"

definition Call :: "env \<Rightarrow> Client \<Rightarrow> string \<Rightarrow> params \<Rightarrow> (error + any) \<times> Client" where
  "Call e c method p =
     (case Call_send e c method p of
        (rid, Some err, c') \<Rightarrow> (Inl err, Call_finish c' rid)
      | (rid, None, c') \<Rightarrow>
          (case server_reply e (Request rid method p) of
             Result r \<Rightarrow> (Inr r, Call_finish c' rid)
           | ErrorResponse m \<Rightarrow> (Inl (ResponseError m), Call_finish c' rid)
           | NoResponse \<Rightarrow> (Inl CallAbandoned, Call_finish c' rid)))"






subsection \<open>The handshake\<close>

definition defaultInitializationOptions :: "string \<rightharpoonup> any" where
  "defaultInitializationOptions =
     [''codelenses'' \<mapsto> AnyBoolMap
        [''generate'' \<mapsto> True,
         ''regenerate_cgo'' \<mapsto> True,
         ''test'' \<mapsto> True,
         ''tidy'' \<mapsto> True,
         ''upgrade_dependency'' \<mapsto> True,
         ''vendor'' \<mapsto> True,
         ''vulncheck'' \<mapsto> False]]"

text \<open>\<open>customConfig\<close> is a Go map that may be nil (\<open>None\<close>); \<open>len\<close> of a map is
  positive exactly when it has a key.\<close>

definition getInitializationOptions :: "(string \<rightharpoonup> any) option \<Rightarrow> (string \<rightharpoonup> any)" where
  "getInitializationOptions customConfig =
     (case customConfig of
        None \<Rightarrow> defaultInitializationOptions
      | Some m \<Rightarrow> if dom m \<noteq> {} then m else defaultInitializationOptions)"

definition initParams :: "env \<Rightarrow> string \<Rightarrow> (string \<rightharpoonup> any) option \<Rightarrow> InitializeParams" where
  "initParams e workspaceDir customConfig =
     \<lparr>WorkspaceFolders = [\<lparr>wf_URI = ''file://'' @ workspaceDir, wf_Name = workspaceDir\<rparr>],
      ProcessID = word_of_int (Getpid e),
      ClientInfo = \<lparr>ci_Name = ''mcp-language-server'', ci_Version = ''0.1.0''\<rparr>,
      RootPath = workspaceDir,
      RootURI = ''file://'' @ workspaceDir,
      Capabilities =
        \<lparr>Workspace_Configuration = True,
         DidChangeConfiguration_DynamicRegistration = True,
         DidChangeWatchedFiles_DynamicRegistration = True,
         DidChangeWatchedFiles_RelativePatternSupport = True,
         Synchronization_DynamicRegistration = True,
         Synchronization_DidSave = True,
         CodeLens_DynamicRegistration = True,
         PublishDiagnostics_VersionSupport = True\<rparr>,
      InitializationOptions = getInitializationOptions customConfig\<rparr>"

definition RegisterNotificationHandler :: "Client \<Rightarrow> string \<Rightarrow> NotificationHandler \<Rightarrow> Client" where
  "RegisterNotificationHandler c method handler =
     c\<lparr>notificationHandlers := (notificationHandlers c)(method \<mapsto> handler)\<rparr>"

definition RegisterServerRequestHandler :: "Client \<Rightarrow> string \<Rightarrow> ServerRequestHandler \<Rightarrow> Client" where
  "RegisterServerRequestHandler c method handler =
     c\<lparr>serverRequestHandlers := (serverRequestHandlers c)(method \<mapsto> handler)\<rparr>"

text \<open>
  Modelled from the spec: \<open>Initialized\<close> is one of the package's wrappers of the LSP
  methods, which are not among the sources. It is the method of the handshake's
  notification (glossary: "the initialize/initialized request-notification pair"), and
  the call site in \<open>InitializeLSPClient\<close> documents the call as "Notify the LSP
  server": it sends the notification \<open>initialized\<close> with its parameters through
  \<open>Notify\<close> and returns what \<open>Notify\<close> returns.
\<close>

definition Initialized :: "env \<Rightarrow> Client \<Rightarrow> error option \<times> Client" where
  "Initialized e c = Notify e c ''initialized'' PInitialized"

text \<open>\<open>strings.Contains\<close>.\<close>

fun Contains :: "string \<Rightarrow> string \<Rightarrow> bool" where
  "Contains [] substr = (substr = [])"
| "Contains (x # xs) substr =
     (take (length substr) (x # xs) = substr \<or> Contains xs substr)"

definition registerHandlers :: "Client \<Rightarrow> Client" where
  "registerHandlers c =
     (let c1 = RegisterServerRequestHandler c ''workspace/applyEdit'' HandleApplyEdit;
          c2 = RegisterServerRequestHandler c1 ''workspace/configuration''
                 HandleWorkspaceConfiguration;
          c3 = RegisterServerRequestHandler c2 ''client/registerCapability''
                 HandleRegisterCapability;
          c4 = RegisterNotificationHandler c3 ''window/showMessage'' HandleServerMessage
      in RegisterNotificationHandler c4 ''textDocument/publishDiagnostics''
           HandleDiagnosticsOfClient)"

text \<open>
  \<open>InitializeLSPClient\<close>. \<open>initializeTypescriptLanguageServer\<close> is not among the
  sources and is a parameter: any function of the client and the workspace directory
  that may fail.
\<close>

definition InitializeLSPClient ::
  "env \<Rightarrow> (Client \<Rightarrow> string \<Rightarrow> error option \<times> Client) \<Rightarrow> Client \<Rightarrow> string \<Rightarrow>
   (string \<rightharpoonup> any) option \<Rightarrow> (error + any) \<times> Client" where
  "InitializeLSPClient e initializeTypescriptLanguageServer c workspaceDir customConfig =
     (case Call e c ''initialize'' (PInitialize (initParams e workspaceDir customConfig)) of
        (Inl err, c1) \<Rightarrow> (Inl (InitializeFailed err), c1)
      | (Inr result, c1) \<Rightarrow>
          (case Notify e c1 ''initialized'' PEmptyStruct of
             (Some err, c2) \<Rightarrow> (Inl (InitializedNotificationFailed err), c2)
           | (None, c2) \<Rightarrow>
               (case Initialized e (registerHandlers c2) of
                  (Some err, c3) \<Rightarrow> (Inl (InitializationFailed err), c3)
                | (None, c3) \<Rightarrow>
                    (let path = ToLower e (CmdPath c3)
                     in if Contains path ''typescript-language-server''
                        then (case initializeTypescriptLanguageServer c3 workspaceDir of
                                (Some err, c4) \<Rightarrow> (Inl err, c4)
                              | (None, c4) \<Rightarrow> (Inr result, c4))
                        else (Inr result, c3)))))"

text \<open>What is written to a pipe stays written: a hook of \<open>InitializeLSPClient\<close> that
  only adds frames to those already sent.\<close>

definition append_only :: "(Client \<Rightarrow> string \<Rightarrow> error option \<times> Client) \<Rightarrow> bool" where
  "append_only hook = (\<forall>c w. take (length (stdin c)) (stdin (snd (hook c w))) = stdin c)"

subsection \<open>Sessions\<close>

text \<open>
  The operations a client goes through after \<open>NewClient\<close>, for statements about every
  state it can reach: the document operations, as the workspace watcher and the tools
  call them, and the \<open>publishDiagnostics\<close> notifications the read loop hands to
  \<open>HandleDiagnostics\<close>.
\<close>

datatype operation =
    DoOpenFile string
  | DoNotifyChange string
  | DoCloseFile string
  | DoCloseAllFiles "string list"
  | DoPublishDiagnostics "(DocumentUri \<times> Diagnostic list) option"

fun perform :: "env \<Rightarrow> Client \<Rightarrow> operation \<Rightarrow> Client" where
  "perform e c (DoOpenFile filepath) = snd (OpenFile e c filepath)"
| "perform e c (DoNotifyChange filepath) = snd (NotifyChange e c filepath)"
| "perform e c (DoCloseFile filepath) = snd (CloseFile e c filepath)"
| "perform e c (DoCloseAllFiles uris) = CloseAllFiles e c uris"
| "perform e c (DoPublishDiagnostics params) = HandleDiagnostics c params"

definition session :: "env \<Rightarrow> string \<Rightarrow> operation list \<Rightarrow> Client" where
  "session e command ops = foldl (perform e) (NewClient command) ops"

fun published :: "operation list \<Rightarrow> DocumentUri list" where
  "published [] = []"
| "published (DoPublishDiagnostics (Some (uri, ds)) # ops) = uri # published ops"
| "published (_ # ops) = published ops"

text \<open>Every key of the open-file map is a \<open>file://\<close> URI: \<open>OpenFile\<close> builds them.\<close>

definition file_keys :: "(string \<rightharpoonup> 'v) \<Rightarrow> bool" where
  "file_keys m = (dom m \<subseteq> {uri. take 7 uri = ''file://''})"

text \<open>The notifications of one method among frames.\<close>

fun notifications :: "string \<Rightarrow> Message list \<Rightarrow> params list" where
  "notifications method [] = []"
| "notifications method (Request rid m p # ms) = notifications method ms"
| "notifications method (Notification m p # ms) =
     (if m = method then p # notifications method ms else notifications method ms)"

fun requests :: "string \<Rightarrow> Message list \<Rightarrow> params list" where
  "requests method [] = []"
| "requests method (Request rid m p # ms) =
     (if m = method then p # requests method ms else requests method ms)"
| "requests method (Notification m p # ms) = requests method ms"

subsection \<open>A stub server\<close>

text \<open>
  A concrete environment: two readable files, ASCII lower-casing, writes that never
  fail, and a server that answers \<open>initialize\<close> with a canned payload and nothing
  else. \<open>broken_pipe\<close> is the same with every write failing.
\<close>

definition ascii_lower :: "char \<Rightarrow> char" where
  "ascii_lower ch =
     (if 65 \<le> (of_char ch :: nat) \<and> (of_char ch :: nat) \<le> 90
      then char_of ((of_char ch :: nat) + 32) else ch)"

definition canned :: any where
  "canned = AnyObject [(''capabilities'', AnyObject [(''hoverProvider'', AnyBool True)])]"

definition stub :: env where
  "stub =
     \<lparr>ReadFile = [''/w/a.go'' \<mapsto> ''package a'', ''/w/b.go'' \<mapsto> ''package b''],
      DetectLanguageID = (\<lambda>uri. ''go''),
      Getpid = 4242,
      ToLower = map ascii_lower,
      write_fails = (\<lambda>n. False),
      server_reply =
        (\<lambda>m. case m of
           Request rid method p \<Rightarrow> if method = ''initialize'' then Result canned else NoResponse
         | Notification method p \<Rightarrow> NoResponse)\<rparr>"

definition broken_pipe :: env where
  "broken_pipe = stub\<lparr>write_fails := (\<lambda>n. True)\<rparr>"

definition no_hook :: "Client \<Rightarrow> string \<Rightarrow> error option \<times> Client" where
  "no_hook c workspaceDir = (None, c)"

text \<open>\<open>flaky\<close>: only the first write fails. \<open>one_open\<close> and \<open>two_open\<close> are
  clients with files open, as \<open>OpenFile\<close> and \<open>NotifyChange\<close> leave them.\<close>

definition flaky :: env where
  "flaky = stub\<lparr>write_fails := (\<lambda>n. n = 0)\<rparr>"

definition one_open :: Client where
  "one_open =
     (NewClient ''gopls'')
       \<lparr>openFiles := [''file:///w/a.go'' \<mapsto> \<lparr>Version = 3, URI = ''file:///w/a.go''\<rparr>]\<rparr>"

definition two_open :: Client where
  "two_open =
     (NewClient ''gopls'')
       \<lparr>openFiles :=
          [''file:///w/a.go'' \<mapsto> \<lparr>Version = 3, URI = ''file:///w/a.go''\<rparr>,
           ''file:///w/b.go'' \<mapsto> \<lparr>Version = 1, URI = ''file:///w/b.go''\<rparr>]\<rparr>"

text \<open>The \<open>didClose\<close> notification of a URI.\<close>

abbreviation didClose :: "DocumentUri \<Rightarrow> Message" where
  "didClose u \<equiv> Notification ''textDocument/didClose'' (PDidClose u)"

section \<open>Opening, changing and closing files\<close>

lemma Notify_ok:
  "\<not> write_fails e (writes c) \<Longrightarrow>
   Notify e c method p =
     (None, c\<lparr>writes := Suc (writes c), stdin := stdin c @ [Notification method p]\<rparr>)"
  by (simp add: Notify_def)

lemma Notify_fail:
  "write_fails e (writes c) \<Longrightarrow>
   Notify e c method p = (Some WriteError, c\<lparr>writes := Suc (writes c)\<rparr>)"
  by (simp add: Notify_def)




text \<open>
  C5. \<open>OpenFile\<close> on a file whose URI is already in the open set returns success
  and leaves the whole client as it was: no frame is written, so no \<open>didOpen\<close> is
  sent, and the stored entry, its \<open>Version\<close> included, is unchanged.
\<close>

theorem OpenFile_already_open:
  assumes "openFiles c (''file://'' @ filepath) = Some info"
  shows "OpenFile e c filepath = (None, c)"
  using assms by (simp add: OpenFile_def)

theorem OpenFile_already_open_witness:
  "openFiles one_open (''file://'' @ ''/w/a.go'') = Some \<lparr>Version = 3, URI = ''file:///w/a.go''\<rparr>
   \<and> OpenFile stub one_open ''/w/a.go'' = (None, one_open)"
proof -
  have h: "openFiles one_open (''file://'' @ ''/w/a.go'')
             = Some \<lparr>Version = 3, URI = ''file:///w/a.go''\<rparr>"
    by (simp add: one_open_def NewClient_def)
  show ?thesis using h OpenFile_already_open [OF h, of stub] by simp
qed

text \<open>A second \<open>OpenFile\<close> after a successful one finds the file open.\<close>

lemma OpenFile_opens:
  "OpenFile e c filepath = (None, c') \<Longrightarrow> openFiles c' (''file://'' @ filepath) \<noteq> None"
  by (auto simp add: OpenFile_def Notify_def Let_def split: option.splits if_splits)

text \<open>
  C4, as the spec states it: \<open>NotifyChange\<close> on an unopened file fails with the state
  error. The file is read before the open set is consulted, so for an unopened file
  that cannot be read the failure is the read error, not the state error.
\<close>

theorem NotifyChange_unopened_counterexample:
  "openFiles (NewClient ''gopls'') (''file://'' @ ''/w/gone.go'') = None \<and>
   NotifyChange stub (NewClient ''gopls'') ''/w/gone.go''
     = (Some (ReadFileError ''/w/gone.go''), NewClient ''gopls'') \<and>
   fst (NotifyChange stub (NewClient ''gopls'') ''/w/gone.go'')
     \<noteq> Some (UnopenedFile ''/w/gone.go'')"
  by (simp add: NotifyChange_def NewClient_def stub_def)

text \<open>
  C4, amended. \<open>NotifyChange\<close> on a file whose URI is not in the open set fails, with
  the state error when the file can be read and with the read error when it cannot;
  in both cases the client is returned as it was: nothing is written to the server and
  the open-file map is unchanged.
\<close>

theorem NotifyChange_unopened:
  assumes "openFiles c (''file://'' @ filepath) = None"
  shows "NotifyChange e c filepath =
           (Some (if ReadFile e filepath = None then ReadFileError filepath
                  else UnopenedFile filepath), c)"
  using assms by (auto simp add: NotifyChange_def Let_def split: option.splits)

theorem NotifyChange_unopened_witness:
  "openFiles (NewClient ''gopls'') (''file://'' @ ''/w/a.go'') = None \<and>
   NotifyChange stub (NewClient ''gopls'') ''/w/a.go''
     = (Some (UnopenedFile ''/w/a.go''), NewClient ''gopls'')"
proof -
  have h: "openFiles (NewClient ''gopls'') (''file://'' @ ''/w/a.go'') = None"
    by (simp add: NewClient_def)
  show ?thesis using h NotifyChange_unopened [OF h, of stub] by (simp add: stub_def)
qed



text \<open>
  C10. When the file is open and readable and the write of the \<open>didChange\<close>
  notification fails, \<open>NotifyChange\<close> returns the error, and the client it leaves has
  the entry's \<open>Version\<close> incremented by one: the increment is not rolled back, and
  nothing was delivered to the server.
\<close>

theorem NotifyChange_not_rolled_back:
  assumes "openFiles c (''file://'' @ filepath) = Some info"
      and "ReadFile e filepath = Some content"
      and "write_fails e (writes c)"
  shows "NotifyChange e c filepath =
           (Some WriteError,
            c\<lparr>openFiles := (openFiles c)(''file://'' @ filepath \<mapsto> info\<lparr>Version := Version info + 1\<rparr>),
              writes := Suc (writes c)\<rparr>)"
  using assms by (simp add: NotifyChange_def Notify_def Let_def)

theorem NotifyChange_not_rolled_back_witness:
  "openFiles one_open (''file://'' @ ''/w/a.go'') = Some \<lparr>Version = 3, URI = ''file:///w/a.go''\<rparr> \<and>
   ReadFile broken_pipe ''/w/a.go'' = Some ''package a'' \<and>
   write_fails broken_pipe (writes one_open) \<and>
   NotifyChange broken_pipe one_open ''/w/a.go'' =
     (Some WriteError,
      one_open\<lparr>openFiles := [''file:///w/a.go'' \<mapsto> \<lparr>Version = 4, URI = ''file:///w/a.go''\<rparr>],
               writes := 1\<rparr>) \<and>
   stdin (snd (NotifyChange broken_pipe one_open ''/w/a.go'')) = []"
proof -
  have h1: "openFiles one_open (''file://'' @ ''/w/a.go'')
              = Some \<lparr>Version = 3, URI = ''file:///w/a.go''\<rparr>"
    by (simp add: one_open_def NewClient_def)
  have h2: "ReadFile broken_pipe ''/w/a.go'' = Some ''package a''"
    by (simp add: broken_pipe_def stub_def)
  have h3: "write_fails broken_pipe (writes one_open)"
    by (simp add: broken_pipe_def)
  show ?thesis
    using h1 h2 h3 NotifyChange_not_rolled_back [OF h1 h2 h3]
    by (simp add: one_open_def NewClient_def)
qed

section \<open>Closing all files\<close>

lemma file_uri_trim:
  assumes "take 7 u = ''file://''"
  shows "''file://'' @ TrimPrefix u ''file://'' = u"
proof -
  have len: "length ''file://'' = 7" by simp
  have "TrimPrefix u ''file://'' = drop 7 u"
    unfolding TrimPrefix_def len using assms by simp
  moreover have "take 7 u @ drop 7 u = u" by (rule append_take_drop_id)
  ultimately show ?thesis using assms by simp
qed

lemma CloseFile_uri:
  assumes "take 7 u = ''file://''"
  shows "CloseFile e c (TrimPrefix u ''file://'') =
           (if openFiles c u = None then (None, c)
            else if write_fails e (writes c) then (Some WriteError, c\<lparr>writes := Suc (writes c)\<rparr>)
            else (None, c\<lparr>writes := Suc (writes c),
                          stdin := stdin c @ [Notification ''textDocument/didClose'' (PDidClose u)],
                          openFiles := (openFiles c)(u := None)\<rparr>))"
proof -
  have u: "''file://'' @ TrimPrefix u ''file://'' = u"
    using assms by (rule file_uri_trim)
  show ?thesis
    unfolding CloseFile_def Let_def u by (simp add: Notify_def Let_def)
qed

lemma closeEach_effect:
  assumes "distinct us" and "set us \<subseteq> dom (openFiles c)"
      and "\<forall>u\<in>set us. take 7 u = ''file://''"
  shows "let c' = closeEach e c (map (\<lambda>uri. TrimPrefix uri ''file://'') us)
         in stdin c' = stdin c @ map didClose (filter (\<lambda>u. openFiles c' u = None) us)
          \<and> (\<forall>u. u \<notin> set us \<longrightarrow> openFiles c' u = openFiles c u)
          \<and> (\<forall>u\<in>set us. openFiles c' u = None \<or> openFiles c' u = openFiles c u)
          \<and> writes c' = writes c + length us
          \<and> (\<forall>i<length us. (openFiles c' (us ! i) = None) = (\<not> write_fails e (writes c + i)))"
  using assms
proof (induction us arbitrary: c)
  case Nil
  then show ?case by simp
next
  case (Cons u us)
  define c1 where "c1 = snd (CloseFile e c (TrimPrefix u ''file://''))"
  define c' where "c' = closeEach e c1 (map (\<lambda>uri. TrimPrefix uri ''file://'') us)"
  have pre: "take 7 u = ''file://''" using Cons.prems by simp
  have isopen: "openFiles c u \<noteq> None" using Cons.prems by auto
  have notin: "u \<notin> set us" and dist: "distinct us" using Cons.prems by simp_all
  have c1_writes: "writes c1 = Suc (writes c)"
    using isopen by (simp add: c1_def CloseFile_uri [OF pre])
  have c1_fail: "write_fails e (writes c) \<Longrightarrow> openFiles c1 = openFiles c \<and> stdin c1 = stdin c"
    using isopen by (simp add: c1_def CloseFile_uri [OF pre])
  have c1_ok: "\<not> write_fails e (writes c) \<Longrightarrow>
      openFiles c1 = (openFiles c)(u := None) \<and> stdin c1 = stdin c @ [didClose u]"
    using isopen by (simp add: c1_def CloseFile_uri [OF pre])
  have other: "\<And>v. v \<noteq> u \<Longrightarrow> openFiles c1 v = openFiles c v"
    using c1_fail c1_ok by (cases "write_fails e (writes c)") simp_all
  have sub: "set us \<subseteq> dom (openFiles c1)"
  proof
    fix v assume v: "v \<in> set us"
    then have "v \<noteq> u" using notin by auto
    then have "openFiles c1 v = openFiles c v" by (rule other)
    moreover have "v \<in> dom (openFiles c)" using v Cons.prems by auto
    ultimately show "v \<in> dom (openFiles c1)" by (simp add: dom_def)
  qed
  have pres: "\<forall>v\<in>set us. take 7 v = ''file://''" using Cons.prems by simp
  have IH: "stdin c' = stdin c1 @ map didClose (filter (\<lambda>v. openFiles c' v = None) us)
          \<and> (\<forall>v. v \<notin> set us \<longrightarrow> openFiles c' v = openFiles c1 v)
          \<and> (\<forall>v\<in>set us. openFiles c' v = None \<or> openFiles c' v = openFiles c1 v)
          \<and> writes c' = writes c1 + length us
          \<and> (\<forall>i<length us. (openFiles c' (us ! i) = None) = (\<not> write_fails e (writes c1 + i)))"
    using Cons.IH [OF dist sub pres] by (simp add: c'_def Let_def)
  have u_same: "openFiles c' u = openFiles c1 u" using IH notin by blast
  have u_closed: "(openFiles c' u = None) = (\<not> write_fails e (writes c))"
    using u_same c1_fail c1_ok isopen by (cases "write_fails e (writes c)") simp_all
  have st: "stdin c' = stdin c @ map didClose (filter (\<lambda>v. openFiles c' v = None) (u # us))"
    using IH u_closed c1_fail c1_ok by (cases "write_fails e (writes c)") simp_all
  have out: "\<forall>v. v \<notin> set (u # us) \<longrightarrow> openFiles c' v = openFiles c v"
    using IH other by simp
  have inn: "\<forall>v\<in>set (u # us). openFiles c' v = None \<or> openFiles c' v = openFiles c v"
  proof
    fix v assume "v \<in> set (u # us)"
    then consider "v = u" | "v \<in> set us" "v \<noteq> u" using notin by auto
    then show "openFiles c' v = None \<or> openFiles c' v = openFiles c v"
    proof cases
      case 1
      then show ?thesis using u_same c1_fail c1_ok
        by (cases "write_fails e (writes c)") simp_all
    next
      case 2
      then show ?thesis using IH other by auto
    qed
  qed
  have wr: "writes c' = writes c + length (u # us)"
    using IH c1_writes by simp
  have idx: "\<forall>i<length (u # us). (openFiles c' ((u # us) ! i) = None) = (\<not> write_fails e (writes c + i))"
  proof (intro allI impI)
    fix i assume i: "i < length (u # us)"
    show "(openFiles c' ((u # us) ! i) = None) = (\<not> write_fails e (writes c + i))"
    proof (cases i)
      case 0
      then show ?thesis using u_closed by simp
    next
      case (Suc j)
      then have "j < length us" using i by simp
      then have "(openFiles c' (us ! j) = None) = (\<not> write_fails e (writes c1 + j))"
        using IH by blast
      then show ?thesis using Suc c1_writes by simp
    qed
  qed
  have "closeEach e c (map (\<lambda>uri. TrimPrefix uri ''file://'') (u # us)) = c'"
    by (simp add: c'_def c1_def)
  then show ?case using st out inn wr idx by (simp only: Let_def) 
qed


text \<open>
  C2, as the spec states it: with N open files, N \<open>didClose\<close> notifications and an
  empty open-file set, also when close calls fail. With one open file and a pipe whose
  writes fail, no \<open>didClose\<close> is sent and the file is still in the open set:
  \<open>CloseFile\<close> returns the error before it deletes the entry.
\<close>

theorem CloseAllFiles_counterexample:
  "card (dom (openFiles one_open)) = 1 \<and>
   notifications ''textDocument/didClose''
     (stdin (CloseAllFiles broken_pipe one_open [''file:///w/a.go''])) = [] \<and>
   openFiles (CloseAllFiles broken_pipe one_open [''file:///w/a.go'']) ''file:///w/a.go'' \<noteq> None"
  by (simp add: CloseAllFiles_def CloseFile_def Notify_def TrimPrefix_def Let_def
        broken_pipe_def stub_def one_open_def NewClient_def)

text \<open>
  C2, amended. \<open>CloseAllFiles\<close> makes one close call per open file, in the order
  \<open>uris\<close> of the snapshot; the i-th call writes once, and it fails exactly when that
  write fails. The frames written are one \<open>didClose\<close> for each file whose call
  succeeded, in order; exactly these files leave the open set, and the others stay as
  they were. So the notifications sent and the files still open add up to N, and
  when no call fails N notifications are sent and the open set is empty.
\<close>

theorem CloseAllFiles_best_effort:
  assumes keys: "file_keys (openFiles c)" and order: "range_order uris (openFiles c)"
  shows "let c' = CloseAllFiles e c uris;
             closed = filter (\<lambda>u. openFiles c' u = None) uris
         in stdin c' = stdin c @ map didClose closed
          \<and> openFiles c' = (\<lambda>u. if u \<in> set closed then None else openFiles c u)
          \<and> length closed + card (dom (openFiles c')) = card (dom (openFiles c))
          \<and> (\<forall>i<length uris. (uris ! i \<in> set closed) = (\<not> write_fails e (writes c + i)))
          \<and> ((\<forall>i<length uris. \<not> write_fails e (writes c + i)) \<longrightarrow>
               length closed = card (dom (openFiles c)) \<and> openFiles c' = Map.empty)"
proof -
  define c' where "c' = CloseAllFiles e c uris"
  define closed where "closed = filter (\<lambda>u. openFiles c' u = None) uris"
  have dist: "distinct uris" and dom_eq: "set uris = dom (openFiles c)"
    using order by (simp_all add: range_order_def)
  have pre: "\<forall>u\<in>set uris. take 7 u = ''file://''"
    using keys dom_eq by (auto simp: file_keys_def)
  have sub: "set uris \<subseteq> dom (openFiles c)" using dom_eq by simp
  have eff: "stdin c' = stdin c @ map didClose closed
          \<and> (\<forall>u. u \<notin> set uris \<longrightarrow> openFiles c' u = openFiles c u)
          \<and> (\<forall>u\<in>set uris. openFiles c' u = None \<or> openFiles c' u = openFiles c u)
          \<and> writes c' = writes c + length uris
          \<and> (\<forall>i<length uris. (openFiles c' (uris ! i) = None) = (\<not> write_fails e (writes c + i)))"
    using closeEach_effect [OF dist sub pre, of e]
    by (simp add: c'_def closed_def CloseAllFiles_def Let_def)
  have sent: "stdin c' = stdin c @ map didClose closed"
    using eff by (rule conjunct1)
  have out: "\<And>u. u \<notin> set uris \<Longrightarrow> openFiles c' u = openFiles c u"
    using eff by simp
  have inn: "\<And>u. u \<in> set uris \<Longrightarrow> openFiles c' u = None \<or> openFiles c' u = openFiles c u"
    using eff by simp
  have nth: "\<And>i. i < length uris \<Longrightarrow>
      (openFiles c' (uris ! i) = None) = (\<not> write_fails e (writes c + i))"
    using eff by simp
  have closed_set: "\<And>u. (u \<in> set closed) = (u \<in> set uris \<and> openFiles c' u = None)"
    by (simp add: closed_def)
  have files: "openFiles c' = (\<lambda>u. if u \<in> set closed then None else openFiles c u)"
  proof
    fix u
    show "openFiles c' u = (if u \<in> set closed then None else openFiles c u)"
    proof (cases "u \<in> set uris")
      case True
      then have "openFiles c' u = None \<or> openFiles c' u = openFiles c u" by (rule inn)
      moreover have "openFiles c u \<noteq> None" using True dom_eq by auto
      ultimately show ?thesis using True by (auto simp: closed_set)
    next
      case False
      then show ?thesis using out [OF False] by (simp add: closed_set)
    qed
  qed
  have outside: "\<forall>u. u \<notin> set uris \<longrightarrow> openFiles c' u = None"
  proof (intro allI impI)
    fix u assume u: "u \<notin> set uris"
    then have "openFiles c' u = openFiles c u" by (rule out)
    moreover have "openFiles c u = None" using u dom_eq by auto
    ultimately show "openFiles c' u = None" by simp
  qed
  have dom': "dom (openFiles c') = set (filter (\<lambda>u. openFiles c' u \<noteq> None) uris)"
    using outside by (auto simp: dom_def)
  have card': "card (dom (openFiles c')) = length (filter (\<lambda>u. openFiles c' u \<noteq> None) uris)"
  proof -
    have "distinct (filter (\<lambda>u. openFiles c' u \<noteq> None) uris)"
      using dist by (rule distinct_filter)
    then show ?thesis unfolding dom' by (rule distinct_card)
  qed
  have cardc: "card (dom (openFiles c)) = length uris"
    using dist dom_eq by (metis distinct_card)
  have count: "length closed + card (dom (openFiles c')) = card (dom (openFiles c))"
    unfolding card' cardc closed_def
    using sum_length_filter_compl [of "\<lambda>u. openFiles c' u = None" uris] by simp
  have idx: "\<forall>i<length uris. (uris ! i \<in> set closed) = (\<not> write_fails e (writes c + i))"
    using nth by (simp add: closed_set)
  have all_ok: "(\<forall>i<length uris. \<not> write_fails e (writes c + i)) \<longrightarrow>
               length closed = card (dom (openFiles c)) \<and> openFiles c' = Map.empty"
  proof
    assume ok: "\<forall>i<length uris. \<not> write_fails e (writes c + i)"
    have "\<forall>u\<in>set uris. openFiles c' u = None"
    proof
      fix u assume "u \<in> set uris"
      then obtain i where i: "i < length uris" and u: "uris ! i = u"
        by (auto simp: in_set_conv_nth)
      have "\<not> write_fails e (writes c + i)" using ok i by simp
      then have "openFiles c' (uris ! i) = None" using nth [OF i] by simp
      then show "openFiles c' u = None" using u by simp
    qed
    then have all_closed: "closed = uris" by (simp add: closed_def)
    have "openFiles c' = Map.empty"
    proof
      fix u show "openFiles c' u = None"
        unfolding files all_closed using dom_eq by auto
    qed
    then show "length closed = card (dom (openFiles c)) \<and> openFiles c' = Map.empty"
      using cardc all_closed by simp
  qed
  have "stdin c' = stdin c @ map didClose closed
          \<and> openFiles c' = (\<lambda>u. if u \<in> set closed then None else openFiles c u)
          \<and> length closed + card (dom (openFiles c')) = card (dom (openFiles c))
          \<and> (\<forall>i<length uris. (uris ! i \<in> set closed) = (\<not> write_fails e (writes c + i)))
          \<and> ((\<forall>i<length uris. \<not> write_fails e (writes c + i)) \<longrightarrow>
               length closed = card (dom (openFiles c)) \<and> openFiles c' = Map.empty)"
    using sent files count idx all_ok by (intro conjI)
  then show ?thesis
    unfolding Let_def c'_def closed_def .
qed


theorem CloseAllFiles_best_effort_witness:
  "file_keys (openFiles two_open) \<and>
   range_order [''file:///w/a.go'', ''file:///w/b.go''] (openFiles two_open) \<and>
   stdin (CloseAllFiles flaky two_open [''file:///w/a.go'', ''file:///w/b.go''])
     = [didClose ''file:///w/b.go''] \<and>
   openFiles (CloseAllFiles flaky two_open [''file:///w/a.go'', ''file:///w/b.go''])
     = [''file:///w/a.go'' \<mapsto> \<lparr>Version = 3, URI = ''file:///w/a.go''\<rparr>] \<and>
   length (filter (\<lambda>u. openFiles (CloseAllFiles flaky two_open
                          [''file:///w/a.go'', ''file:///w/b.go'']) u = None)
             [''file:///w/a.go'', ''file:///w/b.go''])
     + card (dom (openFiles (CloseAllFiles flaky two_open [''file:///w/a.go'', ''file:///w/b.go''])))
     = card (dom (openFiles two_open))"
proof -
  have keys: "file_keys (openFiles two_open)"
    by (simp add: file_keys_def two_open_def NewClient_def)
  have order: "range_order [''file:///w/a.go'', ''file:///w/b.go''] (openFiles two_open)"
    by (auto simp add: range_order_def two_open_def NewClient_def)
  have sent: "stdin (CloseAllFiles flaky two_open [''file:///w/a.go'', ''file:///w/b.go''])
                = [didClose ''file:///w/b.go'']"
    by (simp add: CloseAllFiles_def CloseFile_def Notify_def TrimPrefix_def Let_def
          flaky_def stub_def two_open_def NewClient_def)
  have files: "openFiles (CloseAllFiles flaky two_open [''file:///w/a.go'', ''file:///w/b.go''])
                = [''file:///w/a.go'' \<mapsto> \<lparr>Version = 3, URI = ''file:///w/a.go''\<rparr>]"
    by (simp add: CloseAllFiles_def CloseFile_def Notify_def TrimPrefix_def Let_def
          flaky_def stub_def two_open_def NewClient_def fun_upd_twist)
  have count: "length (filter (\<lambda>u. openFiles (CloseAllFiles flaky two_open
                          [''file:///w/a.go'', ''file:///w/b.go'']) u = None)
             [''file:///w/a.go'', ''file:///w/b.go''])
     + card (dom (openFiles (CloseAllFiles flaky two_open [''file:///w/a.go'', ''file:///w/b.go''])))
     = card (dom (openFiles two_open))"
    using CloseAllFiles_best_effort [OF keys order, of flaky] by (simp only: Let_def)
  show ?thesis using keys order sent files count by (intro conjI)
qed

text \<open>Every state a session reaches has \<open>file://\<close> keys only, so the hypothesis on
  the keys holds wherever \<open>CloseAllFiles\<close> is called.\<close>

lemma OpenFile_file_keys: "file_keys (openFiles c) \<Longrightarrow> file_keys (openFiles (snd (OpenFile e c filepath)))"
  by (auto simp add: OpenFile_def Notify_def Let_def file_keys_def split: option.splits if_splits)

lemma NotifyChange_file_keys: "file_keys (openFiles c) \<Longrightarrow> file_keys (openFiles (snd (NotifyChange e c filepath)))"
  by (auto simp add: NotifyChange_def Notify_def Let_def file_keys_def split: option.splits if_splits)

lemma CloseFile_file_keys: "file_keys (openFiles c) \<Longrightarrow> file_keys (openFiles (snd (CloseFile e c filepath)))"
  by (auto simp add: CloseFile_def Notify_def Let_def file_keys_def split: option.splits if_splits)

lemma closeEach_file_keys: "file_keys (openFiles c) \<Longrightarrow> file_keys (openFiles (closeEach e c paths))"
  by (induction paths arbitrary: c) (simp_all add: CloseFile_file_keys)

lemma perform_file_keys: "file_keys (openFiles c) \<Longrightarrow> file_keys (openFiles (perform e c x))"
  by (cases x) (simp_all add: OpenFile_file_keys NotifyChange_file_keys CloseFile_file_keys
       closeEach_file_keys CloseAllFiles_def HandleDiagnostics_def split: option.splits)

lemma run_file_keys: "file_keys (openFiles c) \<Longrightarrow> file_keys (openFiles (foldl (perform e) c ops))"
  by (induction ops arbitrary: c) (simp_all add: perform_file_keys)

lemma session_file_keys: "file_keys (openFiles (session e command ops))"
  unfolding session_def by (rule run_file_keys) (simp add: file_keys_def NewClient_def)

section \<open>The diagnostics cache\<close>

text \<open>The document operations leave the cache alone; only \<open>HandleDiagnostics\<close> writes
  it, under the URI of the notification.\<close>

lemma Notify_frame:
  "diagnostics (snd (Notify e c method p)) = diagnostics c"
  "openFiles (snd (Notify e c method p)) = openFiles c"
  by (simp_all add: Notify_def Let_def)

lemma OpenFile_diagnostics: "diagnostics (snd (OpenFile e c filepath)) = diagnostics c"
  by (simp add: OpenFile_def Notify_def Let_def split: option.splits)

lemma NotifyChange_diagnostics: "diagnostics (snd (NotifyChange e c filepath)) = diagnostics c"
  by (simp add: NotifyChange_def Notify_def Let_def split: option.splits)

lemma CloseFile_diagnostics: "diagnostics (snd (CloseFile e c filepath)) = diagnostics c"
  by (simp add: CloseFile_def Notify_def Let_def split: option.splits)

lemma closeEach_diagnostics: "diagnostics (closeEach e c paths) = diagnostics c"
  by (induction paths arbitrary: c) (simp_all add: CloseFile_diagnostics)

lemma perform_diagnostics:
  "diagnostics c uri = None \<Longrightarrow> uri \<notin> set (published [x]) \<Longrightarrow>
   diagnostics (perform e c x) uri = None"
proof (cases x)
  case (DoPublishDiagnostics params)
  assume "diagnostics c uri = None" "uri \<notin> set (published [x])"
  then show ?thesis using DoPublishDiagnostics
    by (cases params) (auto simp add: HandleDiagnostics_def)
qed (simp_all add: OpenFile_diagnostics NotifyChange_diagnostics CloseFile_diagnostics
       closeEach_diagnostics CloseAllFiles_def)

lemma published_Cons: "set (published (x # ops)) = set (published [x]) \<union> set (published ops)"
proof (cases x)
  case (DoPublishDiagnostics params)
  then show ?thesis by (cases params) auto
qed simp_all

lemma run_diagnostics:
  "diagnostics c uri = None \<Longrightarrow> uri \<notin> set (published ops) \<Longrightarrow>
   diagnostics (foldl (perform e) c ops) uri = None"
proof (induction ops arbitrary: c)
  case Nil
  then show ?case by simp
next
  case (Cons x ops)
  from Cons.prems have "uri \<notin> set (published [x])" and rest: "uri \<notin> set (published ops)"
    by (simp_all add: published_Cons [of x ops])
  with Cons.prems have "diagnostics (perform e c x) uri = None"
    by (simp add: perform_diagnostics)
  then show ?case using Cons.IH rest by simp
qed

text \<open>
  C9. In a session, from \<open>NewClient\<close> on, in which no \<open>publishDiagnostics\<close>
  notification for a URI was received, \<open>GetFileDiagnostics\<close> returns the empty
  sequence for that URI; it has no failing result; and on any client and URI it returns
  the client as it was, the cache included.
\<close>

theorem GetFileDiagnostics_never_published:
  assumes "uri \<notin> set (published ops)"
  shows "GetFileDiagnostics (session e command ops) uri = ([], session e command ops)
       \<and> snd (GetFileDiagnostics c uri') = c"
proof -
  have "diagnostics (NewClient command) uri = None" by (simp add: NewClient_def)
  then have "diagnostics (session e command ops) uri = None"
    unfolding session_def using assms by (rule run_diagnostics)
  then have "GetFileDiagnostics (session e command ops) uri = ([], session e command ops)"
    by (simp add: GetFileDiagnostics_def)
  moreover have "snd (GetFileDiagnostics c uri') = c"
    by (simp add: GetFileDiagnostics_def split: option.splits)
  ultimately show ?thesis by (rule conjI)
qed

theorem GetFileDiagnostics_never_published_witness:
  "''file:///w/a.go'' \<notin> set (published
      [DoOpenFile ''/w/a.go'',
       DoPublishDiagnostics (Some (''file:///w/b.go'',
          [\<lparr>diag_Severity = 1, diag_Message = ''declared and not used''\<rparr>]))]) \<and>
   fst (GetFileDiagnostics (session stub ''gopls''
      [DoOpenFile ''/w/a.go'',
       DoPublishDiagnostics (Some (''file:///w/b.go'',
          [\<lparr>diag_Severity = 1, diag_Message = ''declared and not used''\<rparr>]))]) ''file:///w/a.go'') = [] \<and>
   fst (GetFileDiagnostics (session stub ''gopls''
      [DoOpenFile ''/w/a.go'',
       DoPublishDiagnostics (Some (''file:///w/b.go'',
          [\<lparr>diag_Severity = 1, diag_Message = ''declared and not used''\<rparr>]))]) ''file:///w/b.go'')
     = [\<lparr>diag_Severity = 1, diag_Message = ''declared and not used''\<rparr>]"
proof -
  have h: "''file:///w/a.go'' \<notin> set (published
      [DoOpenFile ''/w/a.go'',
       DoPublishDiagnostics (Some (''file:///w/b.go'',
          [\<lparr>diag_Severity = 1, diag_Message = ''declared and not used''\<rparr>]))])"
    by simp
  have other: "fst (GetFileDiagnostics (session stub ''gopls''
      [DoOpenFile ''/w/a.go'',
       DoPublishDiagnostics (Some (''file:///w/b.go'',
          [\<lparr>diag_Severity = 1, diag_Message = ''declared and not used''\<rparr>]))]) ''file:///w/b.go'')
     = [\<lparr>diag_Severity = 1, diag_Message = ''declared and not used''\<rparr>]"
    by (simp add: GetFileDiagnostics_def session_def HandleDiagnostics_def)
  show ?thesis
    using h other GetFileDiagnostics_never_published [OF h, of stub "''gopls''"]
    by (intro conjI) simp_all
qed

section \<open>The handshake\<close>

lemma Call_written:
  assumes "\<not> write_fails e (writes c)"
  shows "stdin (snd (Call e c method p)) = stdin c @ [Request (nextID c + 1) method p]"
  using assms
  by (simp add: Call_def Call_send_def Call_finish_def allocID_def Let_def split: reply.splits)

lemma Notify_extends: "\<exists>ms. stdin (snd (Notify e c method p)) = stdin c @ ms"
  by (simp add: Notify_def Let_def)

lemma registerHandlers_stdin: "stdin (registerHandlers c) = stdin c"
  by (simp add: registerHandlers_def RegisterServerRequestHandler_def
        RegisterNotificationHandler_def Let_def)

lemma append_only_extends:
  assumes "append_only hook"
  shows "\<exists>ms. stdin (snd (hook c w)) = stdin c @ ms"
proof -
  have "take (length (stdin c)) (stdin (snd (hook c w))) = stdin c"
    using assms by (simp add: append_only_def)
  then have "stdin (snd (hook c w)) = stdin c @ drop (length (stdin c)) (stdin (snd (hook c w)))"
    by (metis append_take_drop_id)
  then show ?thesis by blast
qed

lemma InitializeLSPClient_extends_call:
  assumes "append_only hook"
  shows "\<exists>ms. stdin (snd (InitializeLSPClient e hook c w cfg))
           = stdin (snd (Call e c ''initialize'' (PInitialize (initParams e w cfg)))) @ ms"
proof -
  obtain r c1 where call: "Call e c ''initialize'' (PInitialize (initParams e w cfg)) = (r, c1)"
    by (cases "Call e c ''initialize'' (PInitialize (initParams e w cfg))")
  show ?thesis
  proof (cases r)
    case (Inl err)
    then show ?thesis by (simp add: InitializeLSPClient_def call)
  next
    case (Inr result)
    obtain r1 c2 where n1: "Notify e c1 ''initialized'' PEmptyStruct = (r1, c2)"
      by (cases "Notify e c1 ''initialized'' PEmptyStruct")
    obtain ms1 where ms1: "stdin c2 = stdin c1 @ ms1"
      using Notify_extends [of e c1 "''initialized''" PEmptyStruct] by (auto simp add: n1)
    show ?thesis
    proof (cases r1)
      case (Some err)
      then show ?thesis using ms1 by (simp add: InitializeLSPClient_def call Inr n1)
    next
      case None
      obtain r2 c3 where n2: "Initialized e (registerHandlers c2) = (r2, c3)"
        by (cases "Initialized e (registerHandlers c2)")
      obtain ms2 where ms2: "stdin c3 = stdin c2 @ ms2"
        using Notify_extends [of e "registerHandlers c2" "''initialized''" PInitialized] n2
        by (auto simp add: Initialized_def registerHandlers_stdin)
      show ?thesis
      proof (cases r2)
        case (Some err)
        then show ?thesis using ms1 ms2
          by (simp add: InitializeLSPClient_def call Inr n1 None n2)
      next
        case r2: None
        obtain r3 c4 where h: "hook c3 w = (r3, c4)" by (cases "hook c3 w")
        obtain ms3 where ms3: "stdin c4 = stdin c3 @ ms3"
          using append_only_extends [OF assms, of c3 w] by (auto simp add: h)
        show ?thesis using ms1 ms2 ms3
          by (cases r3) (simp_all add: InitializeLSPClient_def call Inr n1 None n2 r2 h Let_def)
      qed
    qed
  qed
qed

text \<open>
  C8, as the spec states it: the payload is the custom configuration whenever one is
  supplied. A caller that supplies a configuration with no entry (the config file's
  \<open>{}\<close> for this server) gets the built-in default in the request: the guard of
  \<open>getInitializationOptions\<close> also asks for \<open>len(customConfig) > 0\<close>.
\<close>

theorem initialize_request_options_counterexample:
  "requests ''initialize''
     (stdin (snd (InitializeLSPClient stub no_hook (NewClient ''gopls'') ''/w'' (Some Map.empty))))
     = [PInitialize (initParams stub ''/w'' (Some Map.empty))] \<and>
   InitializationOptions (initParams stub ''/w'' (Some Map.empty)) ''codelenses'' \<noteq> None \<and>
   InitializationOptions (initParams stub ''/w'' (Some Map.empty)) \<noteq> Map.empty"
proof -
  have opts: "InitializationOptions (initParams stub ''/w'' (Some Map.empty)) ''codelenses'' \<noteq> None"
    by (simp add: initParams_def getInitializationOptions_def defaultInitializationOptions_def)
  then have ne: "InitializationOptions (initParams stub ''/w'' (Some Map.empty)) \<noteq> Map.empty"
    by (metis)
  have lower: "\<not> Contains (map ascii_lower ''gopls'') ''typescript-language-server''"
    by (simp add: ascii_lower_def)
  have "requests ''initialize''
     (stdin (snd (InitializeLSPClient stub no_hook (NewClient ''gopls'') ''/w'' (Some Map.empty))))
     = [PInitialize (initParams stub ''/w'' (Some Map.empty))]"
    using lower
    by (simp add: InitializeLSPClient_def Call_def Call_send_def Call_finish_def allocID_def
          Notify_def Initialized_def registerHandlers_def RegisterServerRequestHandler_def
          RegisterNotificationHandler_def Let_def stub_def NewClient_def)
  then show ?thesis using opts ne by (intro conjI)
qed

text \<open>
  C8, amended. When the request is written, the frame \<open>InitializeLSPClient\<close> writes
  first is the \<open>initialize\<close> request with the parameters \<open>initParams\<close>, whose
  initialization options are the custom configuration when one is supplied and has at
  least one entry, and the built-in default profile, the map with the one key
  \<open>codelenses\<close>, when none is supplied or the supplied one is empty.
\<close>

theorem initialize_request_options:
  assumes "\<not> write_fails e (writes c)" and "append_only hook"
  shows "length (stdin c) < length (stdin (snd (InitializeLSPClient e hook c w cfg))) \<and>
         stdin (snd (InitializeLSPClient e hook c w cfg)) ! length (stdin c)
           = Request (nextID c + 1) ''initialize'' (PInitialize (initParams e w cfg)) \<and>
         (\<forall>m. cfg = Some m \<and> dom m \<noteq> {} \<longrightarrow> InitializationOptions (initParams e w cfg) = m) \<and>
         (cfg = None \<or> cfg = Some Map.empty \<longrightarrow>
            InitializationOptions (initParams e w cfg) = defaultInitializationOptions) \<and>
         dom defaultInitializationOptions = {''codelenses''}"
proof -
  obtain ms where "stdin (snd (InitializeLSPClient e hook c w cfg))
      = (stdin c @ [Request (nextID c + 1) ''initialize'' (PInitialize (initParams e w cfg))]) @ ms"
    using InitializeLSPClient_extends_call [OF assms(2), of e c w cfg] Call_written [OF assms(1)]
    by auto
  then have frames: "stdin (snd (InitializeLSPClient e hook c w cfg))
      = stdin c @ Request (nextID c + 1) ''initialize'' (PInitialize (initParams e w cfg)) # ms"
    by simp
  have a: "length (stdin c) < length (stdin (snd (InitializeLSPClient e hook c w cfg)))"
    unfolding frames by simp
  have b: "stdin (snd (InitializeLSPClient e hook c w cfg)) ! length (stdin c)
           = Request (nextID c + 1) ''initialize'' (PInitialize (initParams e w cfg))"
    unfolding frames by simp
  have c: "\<forall>m. cfg = Some m \<and> dom m \<noteq> {} \<longrightarrow> InitializationOptions (initParams e w cfg) = m"
    by (simp add: initParams_def getInitializationOptions_def)
  have d: "cfg = None \<or> cfg = Some Map.empty \<longrightarrow>
            InitializationOptions (initParams e w cfg) = defaultInitializationOptions"
    by (auto simp add: initParams_def getInitializationOptions_def)
  have e: "dom defaultInitializationOptions = {''codelenses''}"
    by (simp add: defaultInitializationOptions_def)
  show ?thesis using a b c d e by (intro conjI)
qed

theorem initialize_request_options_witness:
  "\<not> write_fails stub (writes (NewClient ''gopls'')) \<and> append_only no_hook \<and>
   stdin (snd (InitializeLSPClient stub no_hook (NewClient ''gopls'') ''/w''
                 (Some [''staticcheck'' \<mapsto> AnyBool True]))) ! 0
     = Request 1 ''initialize''
         (PInitialize (initParams stub ''/w'' (Some [''staticcheck'' \<mapsto> AnyBool True]))) \<and>
   InitializationOptions (initParams stub ''/w'' (Some [''staticcheck'' \<mapsto> AnyBool True]))
     = [''staticcheck'' \<mapsto> AnyBool True] \<and>
   InitializationOptions (initParams stub ''/w'' None) = defaultInitializationOptions"
proof -
  have h1: "\<not> write_fails stub (writes (NewClient ''gopls''))" by (simp add: stub_def)
  have h2: "append_only no_hook" by (simp add: append_only_def no_hook_def)
  note t = initialize_request_options
    [OF h1 h2, of "''/w''" "Some [''staticcheck'' \<mapsto> AnyBool True]"]
  have frame: "stdin (snd (InitializeLSPClient stub no_hook (NewClient ''gopls'') ''/w''
                 (Some [''staticcheck'' \<mapsto> AnyBool True]))) ! 0
     = Request 1 ''initialize''
         (PInitialize (initParams stub ''/w'' (Some [''staticcheck'' \<mapsto> AnyBool True])))"
    using t by (simp add: NewClient_def)
  have custom: "InitializationOptions (initParams stub ''/w'' (Some [''staticcheck'' \<mapsto> AnyBool True]))
     = [''staticcheck'' \<mapsto> AnyBool True]"
    using t by simp
  have dflt: "InitializationOptions (initParams stub ''/w'' None) = defaultInitializationOptions"
    using initialize_request_options [OF h1 h2, of "''/w''" None] by simp
  show ?thesis using h1 h2 frame custom dflt by (intro conjI)
qed

text \<open>Every successful handshake with a server other than the TypeScript one writes
  these three frames and returns the payload of the server's answer.\<close>

lemma InitializeLSPClient_success_frames:
  assumes "InitializeLSPClient e hook c w cfg = (Inr result, c')"
      and "\<not> Contains (ToLower e (CmdPath c)) ''typescript-language-server''"
  shows "stdin c' = stdin c @
           [Request (nextID c + 1) ''initialize'' (PInitialize (initParams e w cfg)),
            Notification ''initialized'' PEmptyStruct,
            Notification ''initialized'' PInitialized]
       \<and> server_reply e (Request (nextID c + 1) ''initialize'' (PInitialize (initParams e w cfg)))
           = Result result"
  using assms
  by (auto simp add: InitializeLSPClient_def Call_def Call_send_def Call_finish_def allocID_def
        Notify_def Initialized_def registerHandlers_def RegisterServerRequestHandler_def
        RegisterNotificationHandler_def Let_def
      split: prod.splits sum.splits option.splits if_splits reply.splits)

text \<open>
  C1. Against the stub server, which answers \<open>initialize\<close> with the canned payload,
  \<open>InitializeLSPClient\<close> succeeds, returns that payload and sends one \<open>initialize\<close>
  request, followed by two \<open>initialized\<close> notifications, not one: the first through
  \<open>Notify\<close>, the second through \<open>Initialized\<close>.
\<close>

theorem initialized_sent_twice:
  "fst (InitializeLSPClient stub no_hook (NewClient ''gopls'') ''/w'' None) = Inr canned \<and>
   stdin (snd (InitializeLSPClient stub no_hook (NewClient ''gopls'') ''/w'' None))
     = [Request 1 ''initialize'' (PInitialize (initParams stub ''/w'' None)),
        Notification ''initialized'' PEmptyStruct,
        Notification ''initialized'' PInitialized] \<and>
   length (notifications ''initialized''
     (stdin (snd (InitializeLSPClient stub no_hook (NewClient ''gopls'') ''/w'' None)))) = 2"
proof -
  have lower: "\<not> Contains (map ascii_lower ''gopls'') ''typescript-language-server''"
    by (simp add: ascii_lower_def)
  have run: "InitializeLSPClient stub no_hook (NewClient ''gopls'') ''/w'' None
     = (Inr canned,
        registerHandlers ((NewClient ''gopls'')\<lparr>nextID := 1, writes := 3,
          stdin := [Request 1 ''initialize'' (PInitialize (initParams stub ''/w'' None)),
                    Notification ''initialized'' PEmptyStruct,
                    Notification ''initialized'' PInitialized]\<rparr>))"
    using lower
    by (simp add: InitializeLSPClient_def Call_def Call_send_def Call_finish_def allocID_def
          Notify_def Initialized_def registerHandlers_def RegisterServerRequestHandler_def
          RegisterNotificationHandler_def Let_def stub_def NewClient_def)
  show ?thesis unfolding run by (simp add: registerHandlers_stdin)
qed

section \<open>Request ids\<close>











end
